theory Spec2Isabelle
  imports Main "HOL-Library.Word"
begin

section \<open>Cluster creation (pkg/internal/cluster/create/create.go)\<close>

text \<open>
  A shallow embedding of \<^verbatim>\<open>create.Cluster\<close> and \<^verbatim>\<open>fixupOptions\<close>.
  The function calls collaborators that live in other packages (configuration loading and
  defaulting, the provider, the actions, cluster deletion, kubeconfig export, the logger).
  Each of them is a field of the record \<open>env\<close>; collaborators with an effect take and
  return the outside world \<open>'w\<close>. Every call of a collaborator is appended to a trace,
  with the value it returned, so that "invoked exactly once", "never attempted" and
  "before" are statements about the trace of one call of \<open>Cluster\<close>.
\<close>

subsection \<open>Data\<close>

text \<open>\<^verbatim>\<open>time.Duration\<close> is an \<^verbatim>\<open>int64\<close>.\<close>

type_synonym Duration = "64 word"

text \<open>
  The types of package \<^verbatim>\<open>config\<close> are declared outside this file. Of a node the code
  writes the field \<^verbatim>\<open>Image\<close>, of the cluster it reads \<^verbatim>\<open>Nodes\<close> and
  \<^verbatim>\<open>Networking.DisableDefaultCNI\<close>; the role stands for the rest of a node.
\<close>

record Node =
  Node_Role :: string
  Node_Image :: string

record Networking =
  DisableDefaultCNI :: bool

record config_Cluster =
  Nodes :: "Node list"
  Networking :: Networking

text \<open>\<^verbatim>\<open>ClusterOptions\<close>; \<^verbatim>\<open>Config\<close> is a pointer, \<open>None\<close> is \<^verbatim>\<open>nil\<close>.\<close>

record ClusterOptions =
  Config :: "config_Cluster option"
  NodeImage :: string
  Retain :: bool
  WaitForReady :: Duration
  KubeconfigPath :: string
  StopBeforeSettingUpKubernetes :: bool
  DisplayUsage :: bool
  DisplaySalutation :: bool

text \<open>
  A Go \<^verbatim>\<open>error\<close>: the one \<^verbatim>\<open>Cluster\<close> makes itself with \<^verbatim>\<open>errors.Errorf\<close>
  (its message), an error value handed back by a collaborator, and the run-time panic of
  dereferencing a \<^verbatim>\<open>nil\<close> configuration.
\<close>

datatype error = Errorf string | Collaborator string | NilDereference

text \<open>The actions of the catalogue, named after their packages.\<close>

datatype Action =
    loadbalancer
  | configaction
  | kubeadminit
  | installcni
  | installstorage
  | kubeadmjoin
  | waitforready Duration

datatype event =
    EvLoad "error option"
  | EvSetDefaultsCluster
  | EvMatchString string bool
  | EvWarnf string
  | EvValidate "error option"
  | EvProvision "error option"
  | EvErrorf error
  | EvDelete string "error option"
  | EvExecute Action "error option"
  | EvExport string "error option"
  | EvLogUsage string
  | EvInfo string
  | EvLogSalutation

record 'w state =
  trace :: "event list"
  world :: 'w

record 'w env =
  encoding_Load :: "'w \<Rightarrow> (error + config_Cluster) \<times> 'w"
  config_SetDefaultsCluster :: "config_Cluster \<Rightarrow> config_Cluster"
  config_Validate :: "config_Cluster \<Rightarrow> error option"
  provider_Provision :: "string \<Rightarrow> config_Cluster \<Rightarrow> 'w \<Rightarrow> error option \<times> 'w"
  delete_Cluster :: "string \<Rightarrow> string \<Rightarrow> 'w \<Rightarrow> error option \<times> 'w"
  action_Execute :: "Action \<Rightarrow> string \<Rightarrow> config_Cluster \<Rightarrow> 'w \<Rightarrow> error option \<times> 'w"
  kubeconfig_Export :: "string \<Rightarrow> string \<Rightarrow> 'w \<Rightarrow> error option \<times> 'w"

definition start :: "'w \<Rightarrow> 'w state" where
  "start w = \<lparr>trace = [], world = w\<rparr>"

definition emit :: "event \<Rightarrow> 'w state \<Rightarrow> 'w state" where
  "emit e s = s\<lparr>trace := trace s @ [e]\<rparr>"

text \<open>Calling a collaborator: the world moves on and the call is logged with its result.\<close>

definition call :: "('w \<Rightarrow> 'r \<times> 'w) \<Rightarrow> ('r \<Rightarrow> event) \<Rightarrow> 'w state \<Rightarrow> 'r \<times> 'w state" where
  "call f ev s =
     (case f (world s) of (r, w') \<Rightarrow> (r, \<lparr>trace = trace s @ [ev r], world = w'\<rparr>))"

subsection \<open>The name rule\<close>

definition clusterNameMax :: nat where
  "clusterNameMax = 50"

text \<open>
  \<^verbatim>\<open>validNameRE\<close> is \<^verbatim>\<open>^[a-zA-Z0-9_.-]+$\<close>. A Go string is a sequence of bytes and
  the class holds ASCII characters only, so a byte of the name is in the class when its
  code lies in one of the three ranges or it is one of the three punctuation characters.
  Without the multi-line flag \<^verbatim>\<open>^\<close> and \<^verbatim>\<open>$\<close> are the two ends of the text.
\<close>

definition validNameChar :: "char \<Rightarrow> bool" where
  "validNameChar c \<longleftrightarrow>
     (let n = of_char c :: nat in
        (97 \<le> n \<and> n \<le> 122) \<or> (65 \<le> n \<and> n \<le> 90) \<or> (48 \<le> n \<and> n \<le> 57) \<or>
        c = CHR ''_'' \<or> c = CHR ''.'' \<or> c = CHR ''-'')"

fun match_plus :: "string \<Rightarrow> bool" where
  "match_plus [] = False"
| "match_plus [c] = validNameChar c"
| "match_plus (c # cs) = (validNameChar c \<and> match_plus cs)"

definition validNameRE_MatchString :: "string \<Rightarrow> bool" where
  "validNameRE_MatchString name = match_plus name"

definition validNameRE_String :: string where
  "validNameRE_String = ''^[a-zA-Z0-9_.-]+$''"

definition invalidNameError :: "string \<Rightarrow> error" where
  "invalidNameError name =
     Errorf (CHR 0x27 # name @ CHR 0x27 #
       '' is not a valid cluster name, cluster names must match `'' @ validNameRE_String @ ''`'')"

text \<open>
  The rule in the specification's words: the whole name matches
  \<^verbatim>\<open>^[A-Za-z0-9_.-]+$\<close>, one or more characters, each of them a letter, a digit,
  an underscore, a dot or a hyphen.
\<close>

definition spec_name_alphabet :: "char set" where
  "spec_name_alphabet =
     set ''ABCDEFGHIJKLMNOPQRSTUVWXYZabcdefghijklmnopqrstuvwxyz0123456789_.-''"

definition spec_name_matches :: "string \<Rightarrow> bool" where
  "spec_name_matches name \<longleftrightarrow> name \<noteq> [] \<and> set name \<subseteq> spec_name_alphabet"

subsection \<open>fixupOptions\<close>

text \<open>
  The loop \<^verbatim>\<open>for i := range opts.Config.Nodes { opts.Config.Nodes[i].Image = opts.NodeImage }\<close>
  over the indices it still has to visit.
\<close>

fun overrideImages :: "string \<Rightarrow> nat list \<Rightarrow> Node list \<Rightarrow> Node list" where
  "overrideImages img [] ns = ns"
| "overrideImages img (i # is) ns =
     overrideImages img is (ns[i := (ns ! i)\<lparr>Node_Image := img\<rparr>])"

text \<open>
  The part of \<^verbatim>\<open>fixupOptions\<close> after the configuration is known to exist: the image
  override and \<^verbatim>\<open>config.SetDefaultsCluster\<close>, both in place on \<^verbatim>\<open>opts.Config\<close>.
\<close>

definition overrideConfig :: "ClusterOptions \<Rightarrow> config_Cluster \<Rightarrow> config_Cluster" where
  "overrideConfig opts cfg =
     (if NodeImage opts \<noteq> []
      then cfg\<lparr>Nodes := overrideImages (NodeImage opts) [0..<length (Nodes cfg)] (Nodes cfg)\<rparr>
      else cfg)"

definition loadResult :: "error + config_Cluster \<Rightarrow> error option" where
  "loadResult r = (case r of Inl err \<Rightarrow> Some err | Inr cfg \<Rightarrow> None)"

text \<open>
  \<^verbatim>\<open>fixupOptions\<close> returns an error and changes \<^verbatim>\<open>*opts\<close>: the model returns the
  error, the options as they are afterwards, and the state.
\<close>

definition fixupOptions ::
  "'w env \<Rightarrow> ClusterOptions \<Rightarrow> 'w state \<Rightarrow> error option \<times> ClusterOptions \<times> 'w state" where
  "fixupOptions env opts s =
     (case Config opts of
        None \<Rightarrow>
          (case call (encoding_Load env) (\<lambda>r. EvLoad (loadResult r)) s of
             (Inl err, s1) \<Rightarrow> (Some err, opts, s1)
           | (Inr cfg, s1) \<Rightarrow>
               (None,
                opts\<lparr>Config := Some (config_SetDefaultsCluster env (overrideConfig opts cfg))\<rparr>,
                emit EvSetDefaultsCluster s1))
      | Some cfg \<Rightarrow>
          (None,
           opts\<lparr>Config := Some (config_SetDefaultsCluster env (overrideConfig opts cfg))\<rparr>,
           emit EvSetDefaultsCluster s))"

subsection \<open>Cluster\<close>

text \<open>\<^verbatim>\<open>actionsToRun\<close>, as \<^verbatim>\<open>Cluster\<close> appends to it.\<close>

definition actionsToRun :: "ClusterOptions \<Rightarrow> config_Cluster \<Rightarrow> Action list" where
  "actionsToRun opts cfg =
     (let actions0 = [loadbalancer, configaction] in
      if \<not> StopBeforeSettingUpKubernetes opts then
        (let actions1 = actions0 @ [kubeadminit];
             actions2 = (if \<not> DisableDefaultCNI (Networking cfg)
                         then actions1 @ [installcni] else actions1)
         in actions2 @ [installstorage, kubeadmjoin, waitforready (WaitForReady opts)])
      else actions0)"

text \<open>
  The pipeline in the specification's words: the two-step prefix, and unless
  \<open>stopBeforeBootstrap\<close> the control-plane init, the CNI install unless
  \<open>disableDefaultCNI\<close>, then storage install, node join and the readiness wait.
\<close>

definition spec_steps :: "bool \<Rightarrow> bool \<Rightarrow> Duration \<Rightarrow> Action list" where
  "spec_steps stopBeforeBootstrap disableDefaultCNI waitDuration =
     [loadbalancer, configaction] @
     (if stopBeforeBootstrap then []
      else [kubeadminit] @ (if disableDefaultCNI then [] else [installcni]) @
           [installstorage, kubeadmjoin, waitforready waitDuration])"

text \<open>
  \<^verbatim>\<open>if !opts.Retain { _ = delete.Cluster(logger, ctx, opts.KubeconfigPath) }\<close>: the
  error of the deletion is dropped.
\<close>

definition compensate :: "'w env \<Rightarrow> string \<Rightarrow> ClusterOptions \<Rightarrow> 'w state \<Rightarrow> 'w state" where
  "compensate env name opts s =
     (if \<not> Retain opts
      then snd (call (delete_Cluster env name (KubeconfigPath opts))
                  (EvDelete (KubeconfigPath opts)) s)
      else s)"

text \<open>
  The loop over \<^verbatim>\<open>actionsToRun\<close>. \<open>Some err\<close> is the \<^verbatim>\<open>return err\<close> inside the
  loop, \<open>None\<close> is falling out of the loop.
\<close>

fun runActions ::
  "'w env \<Rightarrow> string \<Rightarrow> ClusterOptions \<Rightarrow> config_Cluster \<Rightarrow> Action list \<Rightarrow> 'w state
     \<Rightarrow> error option \<times> 'w state" where
  "runActions env name opts cfg [] s = (None, s)"
| "runActions env name opts cfg (a # as) s =
     (case call (action_Execute env a name cfg) (EvExecute a) s of
        (Some err, s1) \<Rightarrow> (Some err, compensate env name opts s1)
      | (None, s1) \<Rightarrow> runActions env name opts cfg as s1)"

text \<open>
  What follows the loop, from "skip the rest if we're not setting up kubernetes".
  \<^verbatim>\<open>logUsage\<close> and \<^verbatim>\<open>logSalutation\<close> only write to the logger; each is one event.
\<close>

definition finish ::
  "'w env \<Rightarrow> string \<Rightarrow> ClusterOptions \<Rightarrow> 'w state \<Rightarrow> error option \<times> 'w state" where
  "finish env name opts s =
     (if StopBeforeSettingUpKubernetes opts then (None, s)
      else
        (case call (kubeconfig_Export env name (KubeconfigPath opts))
                (EvExport (KubeconfigPath opts)) s of
           (Some err, s1) \<Rightarrow> (Some err, s1)
         | (None, s1) \<Rightarrow>
             (let s2 = (if DisplayUsage opts then emit (EvLogUsage (KubeconfigPath opts)) s1
                        else s1);
                  s3 = (if DisplaySalutation opts
                        then emit EvLogSalutation (emit (EvInfo []) s2) else s2)
              in (None, s3))))"

text \<open>
  From \<^verbatim>\<open>Provision\<close> on, for a configuration that is there.
  \<^verbatim>\<open>cli.StatusForLogger\<close> and \<^verbatim>\<open>actions.NewActionContext\<close> build values and have no
  effect of their own; the actions get the name and the configuration.
\<close>

definition provisionAndRun ::
  "'w env \<Rightarrow> string \<Rightarrow> ClusterOptions \<Rightarrow> config_Cluster \<Rightarrow> 'w state
     \<Rightarrow> error option \<times> 'w state" where
  "provisionAndRun env name opts cfg s =
     (case call (provider_Provision env name cfg) EvProvision s of
        (Some err, s1) \<Rightarrow> (Some err, compensate env name opts (emit (EvErrorf err) s1))
      | (None, s1) \<Rightarrow>
          (case runActions env name opts cfg (actionsToRun opts cfg) s1 of
             (Some err, s2) \<Rightarrow> (Some err, s2)
           | (None, s2) \<Rightarrow> finish env name opts s2))"

definition tooLongWarning :: "string \<Rightarrow> string" where
  "tooLongWarning name =
     ''cluster name '' @ CHR 0x22 # name @ CHR 0x22 #
     '' is probably too long, this might not work properly on some systems''"

text \<open>After \<^verbatim>\<open>fixupOptions\<close> has returned \<^verbatim>\<open>nil\<close>: the name, then the configuration.\<close>

definition validateAndRun ::
  "'w env \<Rightarrow> string \<Rightarrow> ClusterOptions \<Rightarrow> 'w state \<Rightarrow> error option \<times> 'w state" where
  "validateAndRun env name opts s =
     (let ok = validNameRE_MatchString name;
          s1 = emit (EvMatchString name ok) s
      in if \<not> ok then (Some (invalidNameError name), s1)
         else
           (let s2 = (if length name > clusterNameMax
                      then emit (EvWarnf (tooLongWarning name)) s1 else s1)
            in case Config opts of
                 None \<Rightarrow> (Some NilDereference, s2)
               | Some cfg \<Rightarrow>
                   (case config_Validate env cfg of
                      Some err \<Rightarrow> (Some err, emit (EvValidate (Some err)) s2)
                    | None \<Rightarrow>
                        provisionAndRun env name opts cfg (emit (EvValidate None) s2))))"

definition Cluster ::
  "'w env \<Rightarrow> string \<Rightarrow> ClusterOptions \<Rightarrow> 'w state \<Rightarrow> error option \<times> 'w state" where
  "Cluster env name opts s =
     (case fixupOptions env opts s of
        (Some err, opts1, s1) \<Rightarrow> (Some err, s1)
      | (None, opts1, s1) \<Rightarrow> validateAndRun env name opts1 s1)"

subsection \<open>Reading a trace\<close>

fun is_norm :: "event \<Rightarrow> bool" where
  "is_norm (EvLoad r) = True"
| "is_norm EvSetDefaultsCluster = True"
| "is_norm e = False"

fun is_check :: "event \<Rightarrow> bool" where
  "is_check (EvMatchString name ok) = True"
| "is_check e = False"

fun is_provision :: "event \<Rightarrow> bool" where
  "is_provision (EvProvision r) = True"
| "is_provision e = False"

fun is_delete :: "event \<Rightarrow> bool" where
  "is_delete (EvDelete path r) = True"
| "is_delete e = False"

fun is_execute :: "event \<Rightarrow> bool" where
  "is_execute (EvExecute a r) = True"
| "is_execute e = False"

fun is_export :: "event \<Rightarrow> bool" where
  "is_export (EvExport path r) = True"
| "is_export e = False"

fun is_report :: "event \<Rightarrow> bool" where
  "is_report (EvLogUsage path) = True"
| "is_report (EvInfo msg) = True"
| "is_report EvLogSalutation = True"
| "is_report e = False"

definition count_events :: "(event \<Rightarrow> bool) \<Rightarrow> event list \<Rightarrow> nat" where
  "count_events P tr = length (filter P tr)"

text \<open>The events of a run of actions that all returned \<^verbatim>\<open>nil\<close>.\<close>

definition executed_ok :: "Action list \<Rightarrow> event list" where
  "executed_ok acts = map (\<lambda>a. EvExecute a None) acts"

text \<open>
  "Validation before normalization", read on a trace: no event of \<^verbatim>\<open>fixupOptions\<close>
  (the default configuration loaded, the defaults computed) comes before the first
  match of the name.
\<close>

fun check_precedes_norm :: "event list \<Rightarrow> bool" where
  "check_precedes_norm [] = True"
| "check_precedes_norm (e # es) =
     (if is_check e then True else \<not> is_norm e \<and> check_precedes_norm es)"

text \<open>The configuration \<^verbatim>\<open>fixupOptions\<close> starts from: the caller's, or else the loaded one.\<close>

definition sourceConfig :: "'w env \<Rightarrow> ClusterOptions \<Rightarrow> 'w state \<Rightarrow> config_Cluster option" where
  "sourceConfig env opts s =
     (case Config opts of
        Some cfg \<Rightarrow> Some cfg
      | None \<Rightarrow> (case fst (encoding_Load env (world s)) of
                   Inl err \<Rightarrow> None
                 | Inr cfg \<Rightarrow> Some cfg))"

text \<open>
  Modelled from the spec: \<^verbatim>\<open>config.SetDefaultsCluster\<close> is not part of this file. The
  specification says of the default-value computation that it "fills unset fields; safe
  to call even on a fully-specified input". For the image of a node that is: every node
  entry of the configuration is still there, at its index, and its image, when it is
  set, is left as it is. Nothing is said of entries the computation may add (to an empty
  list of nodes, say).
\<close>

definition fills_unset_only :: "(config_Cluster \<Rightarrow> config_Cluster) \<Rightarrow> bool" where
  "fills_unset_only setDefaults \<longleftrightarrow>
     (\<forall>cfg. \<forall>i < length (Nodes cfg).
        i < length (Nodes (setDefaults cfg)) \<and>
        (Node_Image (Nodes cfg ! i) \<noteq> [] \<longrightarrow>
         Node_Image (Nodes (setDefaults cfg) ! i) = Node_Image (Nodes cfg ! i)))"

subsection \<open>The outcomes of a call\<close>

text \<open>
  The configuration after \<^verbatim>\<open>fixupOptions\<close> and the pipeline assembled from it, as
  functions of the call's inputs.
\<close>

definition normalizedConfig :: "'w env \<Rightarrow> ClusterOptions \<Rightarrow> 'w state \<Rightarrow> config_Cluster option" where
  "normalizedConfig env opts s =
     map_option (\<lambda>cfg. config_SetDefaultsCluster env (overrideConfig opts cfg))
       (sourceConfig env opts s)"

definition pipeline :: "'w env \<Rightarrow> ClusterOptions \<Rightarrow> 'w state \<Rightarrow> Action list" where
  "pipeline env opts s =
     (case normalizedConfig env opts s of None \<Rightarrow> [] | Some cfg \<Rightarrow> actionsToRun opts cfg)"

text \<open>
  The ways a call of \<^verbatim>\<open>Cluster\<close> ends, one for each \<^verbatim>\<open>return\<close> of the source, and
  for each of them the events the call leaves in the trace and the error it returns.
  Lemma \<open>Cluster_outcome\<close> below proves that these are all.
\<close>

datatype outcome =
    LoadFailed error
  | NameInvalid
  | ValidateFailed error
  | ProvisionFailed error "error option"
  | StepFailed nat error "error option"
  | Stopped
  | ExportFailed error
  | Completed

definition norm_events :: "ClusterOptions \<Rightarrow> event list" where
  "norm_events opts = (if Config opts = None then [EvLoad None] else []) @ [EvSetDefaultsCluster]"

definition check_events :: "string \<Rightarrow> event list" where
  "check_events name =
     EvMatchString name True #
     (if length name > clusterNameMax then [EvWarnf (tooLongWarning name)] else [])"

definition deletion :: "ClusterOptions \<Rightarrow> error option \<Rightarrow> event list" where
  "deletion opts d = (if Retain opts then [] else [EvDelete (KubeconfigPath opts) d])"

definition report_events :: "ClusterOptions \<Rightarrow> event list" where
  "report_events opts =
     (if DisplayUsage opts then [EvLogUsage (KubeconfigPath opts)] else []) @
     (if DisplaySalutation opts then [EvInfo [], EvLogSalutation] else [])"

fun tail_events :: "ClusterOptions \<Rightarrow> Action list \<Rightarrow> outcome \<Rightarrow> event list" where
  "tail_events opts acts (ProvisionFailed err d) =
     [EvProvision (Some err), EvErrorf err] @ deletion opts d"
| "tail_events opts acts (StepFailed k err d) =
     [EvProvision None] @
     executed_ok (take k acts) @ [EvExecute (acts ! k) (Some err)] @ deletion opts d"
| "tail_events opts acts Stopped = [EvProvision None] @ executed_ok acts"
| "tail_events opts acts (ExportFailed err) =
     [EvProvision None] @ executed_ok acts @ [EvExport (KubeconfigPath opts) (Some err)]"
| "tail_events opts acts Completed =
     [EvProvision None] @ executed_ok acts @ [EvExport (KubeconfigPath opts) None] @
     report_events opts"
| "tail_events opts acts oc = []"

fun is_tail :: "ClusterOptions \<Rightarrow> Action list \<Rightarrow> outcome \<Rightarrow> bool" where
  "is_tail opts acts (ProvisionFailed err d) = True"
| "is_tail opts acts (StepFailed k err d) = (k < length acts)"
| "is_tail opts acts Stopped = StopBeforeSettingUpKubernetes opts"
| "is_tail opts acts (ExportFailed err) = (\<not> StopBeforeSettingUpKubernetes opts)"
| "is_tail opts acts Completed = (\<not> StopBeforeSettingUpKubernetes opts)"
| "is_tail opts acts oc = False"

fun after_norm :: "string \<Rightarrow> ClusterOptions \<Rightarrow> Action list \<Rightarrow> outcome \<Rightarrow> event list" where
  "after_norm name opts acts (LoadFailed err) = []"
| "after_norm name opts acts NameInvalid = [EvMatchString name False]"
| "after_norm name opts acts (ValidateFailed err) = check_events name @ [EvValidate (Some err)]"
| "after_norm name opts acts oc =
     check_events name @ [EvValidate None] @ tail_events opts acts oc"

fun outcome_events :: "string \<Rightarrow> ClusterOptions \<Rightarrow> Action list \<Rightarrow> outcome \<Rightarrow> event list" where
  "outcome_events name opts acts (LoadFailed err) = [EvLoad (Some err)]"
| "outcome_events name opts acts oc = norm_events opts @ after_norm name opts acts oc"

fun outcome_result :: "string \<Rightarrow> outcome \<Rightarrow> error option" where
  "outcome_result name (LoadFailed err) = Some err"
| "outcome_result name NameInvalid = Some (invalidNameError name)"
| "outcome_result name (ValidateFailed err) = Some err"
| "outcome_result name (ProvisionFailed err d) = Some err"
| "outcome_result name (StepFailed k err d) = Some err"
| "outcome_result name Stopped = None"
| "outcome_result name (ExportFailed err) = Some err"
| "outcome_result name Completed = None"

fun outcome_ok :: "string \<Rightarrow> ClusterOptions \<Rightarrow> Action list \<Rightarrow> outcome \<Rightarrow> bool" where
  "outcome_ok name opts acts (LoadFailed err) = (Config opts = None)"
| "outcome_ok name opts acts NameInvalid = (\<not> validNameRE_MatchString name)"
| "outcome_ok name opts acts (ValidateFailed err) = validNameRE_MatchString name"
| "outcome_ok name opts acts oc = (validNameRE_MatchString name \<and> is_tail opts acts oc)"

fun load_error :: "outcome \<Rightarrow> error option" where
  "load_error (LoadFailed err) = Some err"
| "load_error oc = None"

subsection \<open>A concrete environment\<close>

text \<open>
  Collaborators that all succeed, over a world that counts their calls; the examples
  below change one field at a time.
\<close>

definition exampleNode :: "string \<Rightarrow> string \<Rightarrow> Node" where
  "exampleNode role img = \<lparr>Node_Role = role, Node_Image = img\<rparr>"

definition exampleConfig :: config_Cluster where
  "exampleConfig =
     \<lparr>Nodes = [exampleNode ''control-plane'' [], exampleNode ''worker'' ''kindest/node:v1'',
               exampleNode ''worker'' []],
      Networking = \<lparr>DisableDefaultCNI = False\<rparr>\<rparr>"

definition exampleNodeDefaults :: "Node \<Rightarrow> Node" where
  "exampleNodeDefaults n = (if Node_Image n = [] then n\<lparr>Node_Image := ''kindest/node''\<rparr> else n)"

definition exampleDefaults :: "config_Cluster \<Rightarrow> config_Cluster" where
  "exampleDefaults cfg = cfg\<lparr>Nodes := map exampleNodeDefaults (Nodes cfg)\<rparr>"

definition exampleEnv :: "nat env" where
  "exampleEnv =
     \<lparr>encoding_Load =
        (\<lambda>w. (Inr \<lparr>Nodes = [exampleNode ''control-plane'' []],
                    Networking = \<lparr>DisableDefaultCNI = False\<rparr>\<rparr>, Suc w)),
      config_SetDefaultsCluster = exampleDefaults,
      config_Validate = (\<lambda>cfg. None),
      provider_Provision = (\<lambda>name cfg w. (None, Suc w)),
      delete_Cluster = (\<lambda>name path w. (None, Suc w)),
      action_Execute = (\<lambda>a name cfg w. (None, Suc w)),
      kubeconfig_Export = (\<lambda>name path w. (None, Suc w))\<rparr>"

definition exampleOptions :: ClusterOptions where
  "exampleOptions =
     \<lparr>Config = Some exampleConfig, NodeImage = [], Retain = False, WaitForReady = 30,
      KubeconfigPath = [], StopBeforeSettingUpKubernetes = False,
      DisplayUsage = True, DisplaySalutation = True\<rparr>"


definition failingProvision :: "nat env" where
  "failingProvision =
     exampleEnv\<lparr>provider_Provision := (\<lambda>name cfg w. (Some (Collaborator ''provision''), Suc w)),
                delete_Cluster := (\<lambda>name path w. (Some (Collaborator ''delete''), Suc w))\<rparr>"

definition failingStep :: "nat env" where
  "failingStep =
     exampleEnv\<lparr>action_Execute :=
                  (\<lambda>a name cfg w. (if a = kubeadminit then Some (Collaborator ''init'') else None,
                                   Suc w)),
                delete_Cluster := (\<lambda>name path w. (Some (Collaborator ''delete''), Suc w))\<rparr>"

definition failingExport :: "nat env" where
  "failingExport =
     exampleEnv\<lparr>kubeconfig_Export := (\<lambda>name path w. (Some (Collaborator ''export''), Suc w))\<rparr>"

definition failingLoad :: "nat env" where
  "failingLoad = exampleEnv\<lparr>encoding_Load := (\<lambda>w. (Inl (Collaborator ''load''), Suc w))\<rparr>"

definition stopOptions :: ClusterOptions where
  "stopOptions = exampleOptions\<lparr>StopBeforeSettingUpKubernetes := True\<rparr>"

definition overrideOptions :: ClusterOptions where
  "overrideOptions = exampleOptions\<lparr>NodeImage := ''custom:tag''\<rparr>"

definition noConfigOptions :: ClusterOptions where
  "noConfigOptions = exampleOptions\<lparr>Config := None\<rparr>"

section \<open>Properties\<close>

subsection \<open>Auxiliary facts\<close>

lemma validNameChar_alphabet: "validNameChar c \<longleftrightarrow> c \<in> spec_name_alphabet"
  by (cases c) (simp add: validNameChar_def Let_def spec_name_alphabet_def)

lemma match_plus_iff: "match_plus name \<longleftrightarrow> name \<noteq> [] \<and> list_all validNameChar name"
  by (induction name rule: match_plus.induct) auto

lemma call_trace: "call f ev s = (r, s') \<Longrightarrow> trace s' = trace s @ [ev r]"
  by (auto simp: call_def split: prod.splits)

lemma compensate_trace:
  "\<exists>d. trace (compensate env name opts s) =
        trace s @ (if Retain opts then [] else [EvDelete (KubeconfigPath opts) d])"
  by (auto simp: compensate_def call_def split: prod.splits)

text \<open>
  The loop either runs every action, or stops at the first one that fails, index \<open>k\<close>:
  the actions before it returned \<^verbatim>\<open>nil\<close>, none after it is executed, and the deletion
  follows unless \<^verbatim>\<open>Retain\<close>.
\<close>

lemma runActions_trace:
  "runActions env name opts cfg acts s = (r, s') \<Longrightarrow>
     (r = None \<and> trace s' = trace s @ executed_ok acts) \<or>
     (\<exists>k err d. k < length acts \<and> r = Some err \<and>
        trace s' = trace s @ executed_ok (take k acts) @ [EvExecute (acts ! k) (Some err)] @
                   (if Retain opts then [] else [EvDelete (KubeconfigPath opts) d]))"
proof (induction acts arbitrary: s)
  case Nil
  then show ?case by (simp add: executed_ok_def)
next
  case (Cons a acts)
  obtain x s1 where c: "call (action_Execute env a name cfg) (EvExecute a) s = (x, s1)"
    by (cases "call (action_Execute env a name cfg) (EvExecute a) s")
  have t1: "trace s1 = trace s @ [EvExecute a x]" using call_trace [OF c] .
  show ?case
  proof (cases x)
    case None
    with Cons.prems c have "runActions env name opts cfg acts s1 = (r, s')" by simp
    from Cons.IH [OF this] show ?thesis
    proof
      assume "r = None \<and> trace s' = trace s1 @ executed_ok acts"
      then show ?thesis using t1 None by (simp add: executed_ok_def)
    next
      assume "\<exists>k err d. k < length acts \<and> r = Some err \<and>
        trace s' = trace s1 @ executed_ok (take k acts) @ [EvExecute (acts ! k) (Some err)] @
                   (if Retain opts then [] else [EvDelete (KubeconfigPath opts) d])"
      then obtain k err d where k: "k < length acts" "r = Some err"
        "trace s' = trace s1 @ executed_ok (take k acts) @ [EvExecute (acts ! k) (Some err)] @
                   (if Retain opts then [] else [EvDelete (KubeconfigPath opts) d])" by blast
      have "Suc k < length (a # acts) \<and> r = Some err \<and>
        trace s' = trace s @ executed_ok (take (Suc k) (a # acts)) @
                   [EvExecute ((a # acts) ! Suc k) (Some err)] @
                   (if Retain opts then [] else [EvDelete (KubeconfigPath opts) d])"
        using k t1 None by (simp add: executed_ok_def)
      then show ?thesis by blast
    qed
  next
    case (Some err)
    with Cons.prems c have r: "r = Some err" "s' = compensate env name opts s1" by auto
    obtain d where
      "trace s' = trace s1 @ (if Retain opts then [] else [EvDelete (KubeconfigPath opts) d])"
      using compensate_trace [of env name opts s1] r by auto
    then have "0 < length (a # acts) \<and> r = Some err \<and>
        trace s' = trace s @ executed_ok (take 0 (a # acts)) @
                   [EvExecute ((a # acts) ! 0) (Some err)] @
                   (if Retain opts then [] else [EvDelete (KubeconfigPath opts) d])"
      using t1 r Some by (simp add: executed_ok_def)
    then show ?thesis by blast
  qed
qed

lemma fixupOptions_cases:
  "fixupOptions env opts s = (r, opts1, s1) \<Longrightarrow>
     (\<exists>err. r = Some err \<and> Config opts = None \<and> opts1 = opts \<and>
        sourceConfig env opts s = None \<and> trace s1 = trace s @ [EvLoad (Some err)]) \<or>
     (\<exists>cfg. r = None \<and> normalizedConfig env opts s = Some cfg \<and>
        sourceConfig env opts s \<noteq> None \<and>
        opts1 = opts\<lparr>Config := Some cfg\<rparr> \<and> trace s1 = trace s @ norm_events opts)"
  by (auto simp: fixupOptions_def normalizedConfig_def sourceConfig_def call_def emit_def
      norm_events_def loadResult_def split: option.splits prod.splits sum.splits)

lemma finish_cases:
  "finish env name opts s = (r, s') \<Longrightarrow>
     (StopBeforeSettingUpKubernetes opts \<and> r = None \<and> s' = s) \<or>
     (\<not> StopBeforeSettingUpKubernetes opts \<and>
        (\<exists>err. r = Some err \<and> trace s' = trace s @ [EvExport (KubeconfigPath opts) (Some err)])) \<or>
     (\<not> StopBeforeSettingUpKubernetes opts \<and> r = None \<and>
        trace s' = trace s @ [EvExport (KubeconfigPath opts) None] @ report_events opts)"
  by (auto simp: finish_def call_def emit_def report_events_def Let_def
      split: option.splits prod.splits if_splits)

lemma actionsToRun_Config [simp]: "actionsToRun (opts\<lparr>Config := c\<rparr>) cfg = actionsToRun opts cfg"
  by (simp add: actionsToRun_def Let_def)

lemma provisionAndRun_cases:
  assumes "provisionAndRun env name opts cfg s = (r, s')"
  shows "\<exists>oc. is_tail opts (actionsToRun opts cfg) oc \<and> r = outcome_result name oc \<and>
           trace s' = trace s @ tail_events opts (actionsToRun opts cfg) oc"
proof -
  obtain x s1 where c: "call (provider_Provision env name cfg) EvProvision s = (x, s1)"
    by (cases "call (provider_Provision env name cfg) EvProvision s")
  have t1: "trace s1 = trace s @ [EvProvision x]" using call_trace [OF c] .
  let ?acts = "actionsToRun opts cfg"
  show ?thesis
  proof (cases x)
    case (Some err)
    with assms c have r: "r = Some err" "s' = compensate env name opts (emit (EvErrorf err) s1)"
      by (auto simp: provisionAndRun_def)
    obtain d where "trace s' = trace (emit (EvErrorf err) s1) @ deletion opts d"
      using compensate_trace [of env name opts "emit (EvErrorf err) s1"] r
      by (auto simp: deletion_def)
    then have "is_tail opts ?acts (ProvisionFailed err d) \<and>
        r = outcome_result name (ProvisionFailed err d) \<and>
        trace s' = trace s @ tail_events opts ?acts (ProvisionFailed err d)"
      using t1 r Some by (simp add: emit_def)
    then show ?thesis by blast
  next
    case None
    obtain y s2 where ra: "runActions env name opts cfg ?acts s1 = (y, s2)"
      by (cases "runActions env name opts cfg ?acts s1")
    from runActions_trace [OF ra] show ?thesis
    proof
      assume a: "y = None \<and> trace s2 = trace s1 @ executed_ok ?acts"
      with assms c None ra have f: "finish env name opts s2 = (r, s')"
        by (simp add: provisionAndRun_def)
      from finish_cases [OF f] consider
        (stop) "StopBeforeSettingUpKubernetes opts" "r = None" "s' = s2"
        | (exportfail) err where "\<not> StopBeforeSettingUpKubernetes opts" "r = Some err"
            "trace s' = trace s2 @ [EvExport (KubeconfigPath opts) (Some err)]"
        | (completed) "\<not> StopBeforeSettingUpKubernetes opts" "r = None"
            "trace s' = trace s2 @ [EvExport (KubeconfigPath opts) None] @ report_events opts"
        by blast
      then show ?thesis
      proof cases
        case stop
        then have "is_tail opts ?acts Stopped \<and> r = outcome_result name Stopped \<and>
          trace s' = trace s @ tail_events opts ?acts Stopped"
          using a t1 None by simp
        then show ?thesis by blast
      next
        case exportfail
        then have "is_tail opts ?acts (ExportFailed err) \<and> r = outcome_result name (ExportFailed err) \<and>
          trace s' = trace s @ tail_events opts ?acts (ExportFailed err)"
          using a t1 None by simp
        then show ?thesis by blast
      next
        case completed
        then have "is_tail opts ?acts Completed \<and> r = outcome_result name Completed \<and>
          trace s' = trace s @ tail_events opts ?acts Completed"
          using a t1 None by simp
        then show ?thesis by blast
      qed
    next
      assume "\<exists>k err d. k < length ?acts \<and> y = Some err \<and>
        trace s2 = trace s1 @ executed_ok (take k ?acts) @ [EvExecute (?acts ! k) (Some err)] @
                   (if Retain opts then [] else [EvDelete (KubeconfigPath opts) d])"
      then obtain k err d where k: "k < length ?acts" "y = Some err"
        "trace s2 = trace s1 @ executed_ok (take k ?acts) @ [EvExecute (?acts ! k) (Some err)] @
                   deletion opts d" by (auto simp: deletion_def)
      with assms c None ra have "r = Some err" "s' = s2"
        by (auto simp: provisionAndRun_def)
      then have "is_tail opts ?acts (StepFailed k err d) \<and> r = outcome_result name (StepFailed k err d) \<and>
          trace s' = trace s @ tail_events opts ?acts (StepFailed k err d)"
        using k t1 None by simp
      then show ?thesis by blast
    qed
  qed
qed


lemma deletion_Config [simp]: "deletion (opts\<lparr>Config := c\<rparr>) = deletion opts"
  by (rule ext) (simp add: deletion_def)

lemma report_events_Config [simp]: "report_events (opts\<lparr>Config := c\<rparr>) = report_events opts"
  by (simp add: report_events_def)

lemma tail_events_Config [simp]:
  "tail_events (opts\<lparr>Config := c\<rparr>) acts oc = tail_events opts acts oc"
  by (cases oc) simp_all

lemma is_tail_Config [simp]: "is_tail (opts\<lparr>Config := c\<rparr>) acts oc = is_tail opts acts oc"
  by (cases oc) simp_all

lemma validateAndRun_cases:
  assumes "validateAndRun env name opts s = (r, s')" and "Config opts = Some cfg"
  shows "\<exists>oc. (\<forall>err. oc \<noteq> LoadFailed err) \<and> outcome_ok name opts (actionsToRun opts cfg) oc \<and>
           r = outcome_result name oc \<and>
           trace s' = trace s @ after_norm name opts (actionsToRun opts cfg) oc"
proof (cases "validNameRE_MatchString name")
  case False
  with assms have "r = Some (invalidNameError name)" "trace s' = trace s @ [EvMatchString name False]"
    by (auto simp: validateAndRun_def emit_def Let_def)
  then have "(\<forall>err. NameInvalid \<noteq> LoadFailed err) \<and>
      outcome_ok name opts (actionsToRun opts cfg) NameInvalid \<and>
      r = outcome_result name NameInvalid \<and>
      trace s' = trace s @ after_norm name opts (actionsToRun opts cfg) NameInvalid"
    using False by simp
  then show ?thesis by blast
next
  case True
  define s2 where "s2 = (if length name > clusterNameMax
      then emit (EvWarnf (tooLongWarning name)) (emit (EvMatchString name True) s)
      else emit (EvMatchString name True) s)"
  have t2: "trace s2 = trace s @ check_events name"
    by (simp add: s2_def emit_def check_events_def)
  show ?thesis
  proof (cases "config_Validate env cfg")
    case (Some err)
    with assms True have "r = Some err" "s' = emit (EvValidate (Some err)) s2"
      by (auto simp: validateAndRun_def Let_def s2_def)
    then have "(\<forall>e. ValidateFailed err \<noteq> LoadFailed e) \<and>
      outcome_ok name opts (actionsToRun opts cfg) (ValidateFailed err) \<and>
      r = outcome_result name (ValidateFailed err) \<and>
      trace s' = trace s @ after_norm name opts (actionsToRun opts cfg) (ValidateFailed err)"
      using True t2 by (simp add: emit_def)
    then show ?thesis by blast
  next
    case None
    with assms True have p: "provisionAndRun env name opts cfg (emit (EvValidate None) s2) = (r, s')"
      by (auto simp: validateAndRun_def Let_def s2_def)
    from provisionAndRun_cases [OF p] obtain oc where oc:
      "is_tail opts (actionsToRun opts cfg) oc" "r = outcome_result name oc"
      "trace s' = trace (emit (EvValidate None) s2) @ tail_events opts (actionsToRun opts cfg) oc"
      by blast
    have "(\<forall>e. oc \<noteq> LoadFailed e) \<and>
      outcome_ok name opts (actionsToRun opts cfg) oc \<and>
      r = outcome_result name oc \<and>
      trace s' = trace s @ after_norm name opts (actionsToRun opts cfg) oc"
      using oc True t2 by (cases oc) (simp_all add: emit_def)
    then show ?thesis by blast
  qed
qed

lemma after_norm_Config [simp]:
  "after_norm name (opts\<lparr>Config := c\<rparr>) acts oc = after_norm name opts acts oc"
  by (cases oc) simp_all

lemma outcome_ok_Config:
  "(\<forall>err. oc \<noteq> LoadFailed err) \<Longrightarrow>
   outcome_ok name (opts\<lparr>Config := c\<rparr>) acts oc = outcome_ok name opts acts oc"
  by (cases oc) simp_all

text \<open>Every call of \<open>Cluster\<close> ends in one of the eight outcomes.\<close>

lemma Cluster_outcome:
  assumes "Cluster env name opts s = (r, s')"
  shows "\<exists>oc. outcome_ok name opts (pipeline env opts s) oc \<and>
           r = outcome_result name oc \<and>
           trace s' = trace s @ outcome_events name opts (pipeline env opts s) oc \<and>
           fst (fixupOptions env opts s) = load_error oc \<and>
           (load_error oc = None \<longleftrightarrow> sourceConfig env opts s \<noteq> None)"
proof -
  obtain r0 opts1 s1 where f: "fixupOptions env opts s = (r0, opts1, s1)"
    by (cases "fixupOptions env opts s")
  from fixupOptions_cases [OF f] show ?thesis
  proof
    assume "\<exists>err. r0 = Some err \<and> Config opts = None \<and> opts1 = opts \<and>
        sourceConfig env opts s = None \<and> trace s1 = trace s @ [EvLoad (Some err)]"
    then obtain err where e: "r0 = Some err" "Config opts = None"
      "sourceConfig env opts s = None" "trace s1 = trace s @ [EvLoad (Some err)]" by blast
    with assms f have "r = Some err" "s' = s1" by (auto simp: Cluster_def)
    then have "outcome_ok name opts (pipeline env opts s) (LoadFailed err) \<and>
           r = outcome_result name (LoadFailed err) \<and>
           trace s' = trace s @ outcome_events name opts (pipeline env opts s) (LoadFailed err) \<and>
           fst (fixupOptions env opts s) = load_error (LoadFailed err) \<and>
           (load_error (LoadFailed err) = None \<longleftrightarrow> sourceConfig env opts s \<noteq> None)"
      using e f by simp
    then show ?thesis by (rule exI)
  next
    assume "\<exists>cfg. r0 = None \<and> normalizedConfig env opts s = Some cfg \<and>
        sourceConfig env opts s \<noteq> None \<and>
        opts1 = opts\<lparr>Config := Some cfg\<rparr> \<and> trace s1 = trace s @ norm_events opts"
    then obtain cfg where c: "r0 = None" "normalizedConfig env opts s = Some cfg"
      "opts1 = opts\<lparr>Config := Some cfg\<rparr>" "trace s1 = trace s @ norm_events opts"
      "sourceConfig env opts s \<noteq> None" by blast
    with assms f have v: "validateAndRun env name opts1 s1 = (r, s')" by (auto simp: Cluster_def)
    have "Config opts1 = Some cfg" using c by simp
    from validateAndRun_cases [OF v this] obtain oc where oc:
      "\<forall>err. oc \<noteq> LoadFailed err" "outcome_ok name opts1 (actionsToRun opts1 cfg) oc"
      "r = outcome_result name oc"
      "trace s' = trace s1 @ after_norm name opts1 (actionsToRun opts1 cfg) oc" by blast
    have p: "pipeline env opts s = actionsToRun opts cfg" using c by (simp add: pipeline_def)
    have ok: "outcome_ok name opts (pipeline env opts s) oc"
      using oc(1,2) c(3) p by (simp add: outcome_ok_Config)
    have ev: "trace s' = trace s @ outcome_events name opts (pipeline env opts s) oc"
      using oc(1,4) c(3,4) p by (cases oc) simp_all
    have le: "load_error oc = None" using oc(1) by (cases oc) simp_all
    have "outcome_ok name opts (pipeline env opts s) oc \<and>
           r = outcome_result name oc \<and>
           trace s' = trace s @ outcome_events name opts (pipeline env opts s) oc \<and>
           fst (fixupOptions env opts s) = load_error oc \<and>
           (load_error oc = None \<longleftrightarrow> sourceConfig env opts s \<noteq> None)"
      using ok oc(3) ev le c(1,5) f by simp
    then show ?thesis by (rule exI)
  qed
qed

lemma start_trace [simp]: "trace (start w) = []"
  by (simp add: start_def)

lemma executed_ok_simps [simp]:
  "filter is_execute (executed_ok acts) = executed_ok acts"
  "filter is_delete (executed_ok acts) = []"
  "filter is_export (executed_ok acts) = []"
  "filter is_report (executed_ok acts) = []"
  "filter is_provision (executed_ok acts) = []"
  "EvExecute a (Some err) \<notin> set (executed_ok acts)"
  "EvProvision x \<notin> set (executed_ok acts)"
  "EvExport path y \<notin> set (executed_ok acts)"
  "(executed_ok acts = []) = (acts = [])"
  "([] = executed_ok acts) = (acts = [])"
  "list_all (\<lambda>e. \<not> is_norm e \<and> \<not> is_check e) (executed_ok acts)"
  by (induction acts) (simp_all add: executed_ok_def)

lemma norm_events_simps [simp]:
  "filter is_execute (norm_events opts) = []"
  "filter is_delete (norm_events opts) = []"
  "filter is_export (norm_events opts) = []"
  "filter is_report (norm_events opts) = []"
  "filter is_provision (norm_events opts) = []"
  "EvExecute a x \<notin> set (norm_events opts)"
  "EvProvision x \<notin> set (norm_events opts)"
  "EvExport path y \<notin> set (norm_events opts)"
  "norm_events opts \<noteq> []"
  "list_all is_norm (norm_events opts)"
  by (simp_all add: norm_events_def)

lemma check_events_simps [simp]:
  "filter is_execute (check_events name) = []"
  "filter is_delete (check_events name) = []"
  "filter is_export (check_events name) = []"
  "filter is_report (check_events name) = []"
  "filter is_provision (check_events name) = []"
  "EvExecute a x \<notin> set (check_events name)"
  "EvProvision x \<notin> set (check_events name)"
  "EvExport path y \<notin> set (check_events name)"
  by (simp_all add: check_events_def)

lemma deletion_simps [simp]:
  "filter is_execute (deletion opts d) = []"
  "length (filter is_delete (deletion opts d)) = (if Retain opts then 0 else 1)"
  "filter is_export (deletion opts d) = []"
  "filter is_report (deletion opts d) = []"
  "filter is_provision (deletion opts d) = []"
  "EvExecute a x \<notin> set (deletion opts d)"
  "EvProvision x \<notin> set (deletion opts d)"
  "EvExport path y \<notin> set (deletion opts d)"
  "list_all (\<lambda>e. \<not> is_norm e \<and> \<not> is_check e) (deletion opts d)"
  by (simp_all add: deletion_def)

lemma report_events_simps [simp]:
  "filter is_execute (report_events opts) = []"
  "filter is_delete (report_events opts) = []"
  "filter is_export (report_events opts) = []"
  "filter is_provision (report_events opts) = []"
  "EvExecute a x \<notin> set (report_events opts)"
  "EvProvision x \<notin> set (report_events opts)"
  "EvExport path y \<notin> set (report_events opts)"
  "list_all (\<lambda>e. \<not> is_norm e \<and> \<not> is_check e) (report_events opts)"
  by (simp_all add: report_events_def)

lemma actionsToRun_nonempty [simp]: "actionsToRun opts cfg \<noteq> []"
  by (simp add: actionsToRun_def Let_def)

lemma executed_ok_failed [simp]:
  "executed_ok xs @ [EvExecute a (Some err)] \<noteq> executed_ok acts"
proof
  assume "executed_ok xs @ [EvExecute a (Some err)] = executed_ok acts"
  then have "EvExecute a (Some err) \<in> set (executed_ok acts)"
    by (metis in_set_conv_decomp)
  then show False by simp
qed

subsection \<open>The image override\<close>

lemma overrideImages_length [simp]: "length (overrideImages img is ns) = length ns"
  by (induction "is" arbitrary: ns) simp_all

lemma overrideImages_upt:
  "k \<le> length ns \<Longrightarrow>
   overrideImages img [k..<length ns] ns =
     take k ns @ map (\<lambda>n. n\<lparr>Node_Image := img\<rparr>) (drop k ns)"
proof (induction "length ns - k" arbitrary: k ns)
  case 0
  then show ?case by simp
next
  case (Suc d)
  then have k: "k < length ns" by simp
  let ?ns = "ns[k := (ns ! k)\<lparr>Node_Image := img\<rparr>]"
  have d: "d = length ?ns - Suc k" using Suc.hyps(2) by simp
  have "overrideImages img [k..<length ns] ns = overrideImages img [Suc k..<length ?ns] ?ns"
    using k by (simp add: upt_conv_Cons)
  also have "\<dots> = take (Suc k) ?ns @ map (\<lambda>n. n\<lparr>Node_Image := img\<rparr>) (drop (Suc k) ?ns)"
    using Suc.hyps(1) [OF d] k by simp
  also have "\<dots> = take k ns @ map (\<lambda>n. n\<lparr>Node_Image := img\<rparr>) (drop k ns)"
    using k by (simp add: take_Suc_conv_app_nth Cons_nth_drop_Suc [symmetric])
  finally show ?case .
qed

lemma overrideImages_all:
  "overrideImages img [0..<length ns] ns = map (\<lambda>n. n\<lparr>Node_Image := img\<rparr>) ns"
  using overrideImages_upt [of 0 ns img] by simp

lemma overrideConfig_Nodes:
  "Nodes (overrideConfig opts cfg) =
     (if NodeImage opts \<noteq> [] then map (\<lambda>n. n\<lparr>Node_Image := NodeImage opts\<rparr>) (Nodes cfg)
      else Nodes cfg)"
  by (simp add: overrideConfig_def overrideImages_all)

lemma fixupOptions_Config:
  "fixupOptions env opts s = (None, opts1, s1) \<Longrightarrow>
   \<exists>cfg0. sourceConfig env opts s = Some cfg0 \<and>
     opts1 = opts\<lparr>Config := Some (config_SetDefaultsCluster env (overrideConfig opts cfg0))\<rparr>"
  by (auto simp: fixupOptions_def sourceConfig_def call_def split: option.splits prod.splits sum.splits)

lemma fills_unset_only_images:
  assumes "fills_unset_only sd" and "img \<noteq> []"
    and "\<forall>n \<in> set (Nodes cfg). Node_Image n = img"
  shows "length (Nodes cfg) \<le> length (Nodes (sd cfg))"
    and "\<forall>i < length (Nodes cfg). Node_Image (Nodes (sd cfg) ! i) = img"
    and "length (Nodes (sd cfg)) = length (Nodes cfg) \<longrightarrow>
         (\<forall>n \<in> set (Nodes (sd cfg)). Node_Image n = img)"
proof -
  have keep: "i < length (Nodes (sd cfg)) \<and> Node_Image (Nodes (sd cfg) ! i) = img"
    if "i < length (Nodes cfg)" for i
  proof -
    have "Node_Image (Nodes cfg ! i) = img" using assms(3) that by simp
    then show ?thesis using assms(1,2) that by (simp add: fills_unset_only_def)
  qed
  show "length (Nodes cfg) \<le> length (Nodes (sd cfg))"
  proof (rule ccontr)
    assume "\<not> length (Nodes cfg) \<le> length (Nodes (sd cfg))"
    then have "length (Nodes (sd cfg)) < length (Nodes cfg)" by simp
    from keep [OF this] show False by simp
  qed
  show "\<forall>i < length (Nodes cfg). Node_Image (Nodes (sd cfg) ! i) = img"
    using keep by simp
  show "length (Nodes (sd cfg)) = length (Nodes cfg) \<longrightarrow>
         (\<forall>n \<in> set (Nodes (sd cfg)). Node_Image n = img)"
    using keep by (auto simp: in_set_conv_nth)
qed

lemma exampleDefaults_fills: "fills_unset_only exampleDefaults"
  by (simp add: fills_unset_only_def exampleDefaults_def exampleNodeDefaults_def)

subsection \<open>The name rule and the order of the phases\<close>

lemma validName_spec: "validNameRE_MatchString name \<longleftrightarrow> spec_name_matches name"
  by (auto simp: validNameRE_MatchString_def match_plus_iff spec_name_matches_def
      validNameChar_alphabet list_all_iff)

lemma after_norm_shape:
  assumes "\<forall>err. oc \<noteq> LoadFailed err" and "outcome_ok name opts acts oc"
  shows "\<exists>rest. after_norm name opts acts oc =
            EvMatchString name (validNameRE_MatchString name) # rest \<and>
          list_all (\<lambda>e. \<not> is_norm e \<and> \<not> is_check e) rest"
  using assms by (cases oc) (simp_all add: check_events_def)

subsection \<open>The example runs\<close>

lemmas run_defs = Cluster_def fixupOptions_def validateAndRun_def provisionAndRun_def finish_def
  compensate_def call_def emit_def start_def overrideConfig_def actionsToRun_def
  validNameRE_MatchString_def validNameChar_def Let_def loadResult_def clusterNameMax_def
  invalidNameError_def validNameRE_String_def tooLongWarning_def

lemmas example_defs = exampleEnv_def exampleOptions_def exampleConfig_def exampleDefaults_def
  exampleNodeDefaults_def exampleNode_def stopOptions_def

lemma example_normalized:
  "normalizedConfig exampleEnv exampleOptions (start 0) = Some (exampleDefaults exampleConfig)"
  "normalizedConfig exampleEnv stopOptions (start 0) = Some (exampleDefaults exampleConfig)"
  by (simp_all add: normalizedConfig_def sourceConfig_def overrideConfig_def exampleEnv_def
      exampleOptions_def stopOptions_def)

lemma example_pipeline:
  "actionsToRun exampleOptions cfg =
     (if DisableDefaultCNI (Networking cfg)
      then [loadbalancer, configaction, kubeadminit, installstorage, kubeadmjoin, waitforready 30]
      else [loadbalancer, configaction, kubeadminit, installcni, installstorage, kubeadmjoin,
            waitforready 30])"
  "actionsToRun stopOptions cfg = [loadbalancer, configaction]"
  by (simp_all add: actionsToRun_def exampleOptions_def stopOptions_def)

lemma failingProvision_run:
  "Cluster failingProvision ''kind'' exampleOptions (start 0) =
     (Some (Collaborator ''provision''),
      \<lparr>trace = [EvSetDefaultsCluster, EvMatchString ''kind'' True, EvValidate None,
                EvProvision (Some (Collaborator ''provision'')),
                EvErrorf (Collaborator ''provision''),
                EvDelete [] (Some (Collaborator ''delete''))],
       world = 2\<rparr>)"
  by (simp add: run_defs example_defs failingProvision_def)

lemma failingStep_run:
  "Cluster failingStep ''kind'' exampleOptions (start 0) =
     (Some (Collaborator ''init''),
      \<lparr>trace = [EvSetDefaultsCluster, EvMatchString ''kind'' True, EvValidate None,
                EvProvision None, EvExecute loadbalancer None, EvExecute configaction None,
                EvExecute kubeadminit (Some (Collaborator ''init'')),
                EvDelete [] (Some (Collaborator ''delete''))],
       world = 5\<rparr>)"
  by (simp add: run_defs example_defs failingStep_def)

lemma example_run:
  "Cluster exampleEnv ''kind'' exampleOptions (start 0) =
     (None,
      \<lparr>trace = [EvSetDefaultsCluster, EvMatchString ''kind'' True, EvValidate None,
                EvProvision None, EvExecute loadbalancer None, EvExecute configaction None,
                EvExecute kubeadminit None, EvExecute installcni None,
                EvExecute installstorage None, EvExecute kubeadmjoin None,
                EvExecute (waitforready 30) None, EvExport [] None, EvLogUsage [], EvInfo [],
                EvLogSalutation],
       world = 9\<rparr>)"
  by (simp add: run_defs example_defs)

lemma stop_run:
  "Cluster exampleEnv ''kind'' stopOptions (start 0) =
     (None,
      \<lparr>trace = [EvSetDefaultsCluster, EvMatchString ''kind'' True, EvValidate None,
                EvProvision None, EvExecute loadbalancer None, EvExecute configaction None],
       world = 3\<rparr>)"
  by (simp add: run_defs example_defs)

lemma failingExport_run:
  "Cluster failingExport ''kind'' exampleOptions (start 0) =
     (Some (Collaborator ''export''),
      \<lparr>trace = [EvSetDefaultsCluster, EvMatchString ''kind'' True, EvValidate None,
                EvProvision None, EvExecute loadbalancer None, EvExecute configaction None,
                EvExecute kubeadminit None, EvExecute installcni None,
                EvExecute installstorage None, EvExecute kubeadmjoin None,
                EvExecute (waitforready 30) None, EvExport [] (Some (Collaborator ''export''))],
       world = 9\<rparr>)"
  by (simp add: run_defs example_defs failingExport_def)

lemma override_run:
  "fixupOptions exampleEnv overrideOptions (start 0) =
     (None,
      overrideOptions\<lparr>Config := Some
        \<lparr>Nodes = [exampleNode ''control-plane'' ''custom:tag'', exampleNode ''worker'' ''custom:tag'',
                  exampleNode ''worker'' ''custom:tag''],
         Networking = \<lparr>DisableDefaultCNI = False\<rparr>\<rparr>\<rparr>,
      \<lparr>trace = [EvSetDefaultsCluster], world = 0\<rparr>)"
  by (simp add: run_defs example_defs overrideOptions_def)

lemma plain_run:
  "fixupOptions exampleEnv exampleOptions (start 0) =
     (None,
      exampleOptions\<lparr>Config := Some
        \<lparr>Nodes = [exampleNode ''control-plane'' ''kindest/node'',
                  exampleNode ''worker'' ''kindest/node:v1'',
                  exampleNode ''worker'' ''kindest/node''],
         Networking = \<lparr>DisableDefaultCNI = False\<rparr>\<rparr>\<rparr>,
      \<lparr>trace = [EvSetDefaultsCluster], world = 0\<rparr>)"
  by (simp add: run_defs example_defs)

lemma noConfig_run:
  "Cluster exampleEnv ''a/b'' noConfigOptions (start 0) =
     (Some (invalidNameError ''a/b''),
      \<lparr>trace = [EvLoad None, EvSetDefaultsCluster, EvMatchString ''a/b'' False], world = 1\<rparr>)"
  by (simp add: run_defs example_defs noConfigOptions_def)

lemma noConfig_fixup:
  "fixupOptions exampleEnv noConfigOptions (start 0) =
     (None,
      noConfigOptions\<lparr>Config := Some
        \<lparr>Nodes = [exampleNode ''control-plane'' ''kindest/node''],
         Networking = \<lparr>DisableDefaultCNI = False\<rparr>\<rparr>\<rparr>,
      \<lparr>trace = [EvLoad None, EvSetDefaultsCluster], world = 1\<rparr>)"
  by (simp add: run_defs example_defs noConfigOptions_def)

lemma failingLoad_run:
  "Cluster failingLoad ''a/b'' noConfigOptions (start 0) =
     (Some (Collaborator ''load''), \<lparr>trace = [EvLoad (Some (Collaborator ''load''))], world = 1\<rparr>)"
  by (simp add: run_defs example_defs noConfigOptions_def failingLoad_def)

lemma invalid_runs:
  "Cluster exampleEnv ''my cluster!'' exampleOptions (start 0) =
     (Some (invalidNameError ''my cluster!''),
      \<lparr>trace = [EvSetDefaultsCluster, EvMatchString ''my cluster!'' False], world = 0\<rparr>)"
  "Cluster exampleEnv [] exampleOptions (start 0) =
     (Some (invalidNameError []),
      \<lparr>trace = [EvSetDefaultsCluster, EvMatchString [] False], world = 0\<rparr>)"
  by (simp_all add: run_defs example_defs)

subsection \<open>The assembled pipeline\<close>

text \<open>
  C2, as the code has it. The assembled pipeline has exactly 2 steps when
  \<^verbatim>\<open>StopBeforeSettingUpKubernetes\<close> is set, exactly 6 steps when it is not set and
  \<^verbatim>\<open>DisableDefaultCNI\<close> is set, and exactly 7 steps when neither flag is set: the
  two-step prefix, \<^verbatim>\<open>kubeadminit\<close>, \<^verbatim>\<open>installcni\<close> unless disabled, and the three
  remaining steps.
\<close>

theorem pipeline_length:
  "(StopBeforeSettingUpKubernetes opts \<longrightarrow> length (actionsToRun opts cfg) = 2) \<and>
   (\<not> StopBeforeSettingUpKubernetes opts \<and> DisableDefaultCNI (Networking cfg) \<longrightarrow>
      length (actionsToRun opts cfg) = 6) \<and>
   (\<not> StopBeforeSettingUpKubernetes opts \<and> \<not> DisableDefaultCNI (Networking cfg) \<longrightarrow>
      length (actionsToRun opts cfg) = 7)"
  by (simp add: actionsToRun_def)

theorem pipeline_length_witness:
  "length (actionsToRun (exampleOptions\<lparr>StopBeforeSettingUpKubernetes := True\<rparr>) exampleConfig) = 2 \<and>
   length (actionsToRun exampleOptions
             (exampleConfig\<lparr>Networking := \<lparr>DisableDefaultCNI = True\<rparr>\<rparr>)) = 6 \<and>
   length (actionsToRun exampleOptions exampleConfig) = 7"
  using pipeline_length [of "exampleOptions\<lparr>StopBeforeSettingUpKubernetes := True\<rparr>" exampleConfig]
    pipeline_length [of exampleOptions "exampleConfig\<lparr>Networking := \<lparr>DisableDefaultCNI = True\<rparr>\<rparr>"]
    pipeline_length [of exampleOptions exampleConfig]
  by (simp add: exampleOptions_def exampleConfig_def)

text \<open>
  C2, as the claim states it (5 steps with the default CNI disabled, 6 steps with neither
  flag set), fails: with the stop flag clear the pipeline of the example options has 7
  steps, and 6 once the default CNI is disabled.
\<close>

theorem pipeline_length_counterexample:
  "\<not> StopBeforeSettingUpKubernetes exampleOptions \<and>
   \<not> DisableDefaultCNI (Networking exampleConfig) \<and>
   length (actionsToRun exampleOptions exampleConfig) \<noteq> 6 \<and>
   DisableDefaultCNI (Networking (exampleConfig\<lparr>Networking := \<lparr>DisableDefaultCNI = True\<rparr>\<rparr>)) \<and>
   length (actionsToRun exampleOptions
             (exampleConfig\<lparr>Networking := \<lparr>DisableDefaultCNI = True\<rparr>\<rparr>)) \<noteq> 5"
  by (simp add: actionsToRun_def exampleOptions_def exampleConfig_def)

text \<open>
  C3. The assembled step sequence is the output of the specification's algorithm: the
  prefix load balancer, configuration; unless the stop flag is set, control-plane init,
  the CNI install unless the default CNI is disabled, then storage install, node join and
  the readiness wait with the wait duration of the options; nothing after the prefix when
  the stop flag is set.
\<close>

theorem pipeline_is_spec_steps:
  "actionsToRun opts cfg =
     spec_steps (StopBeforeSettingUpKubernetes opts) (DisableDefaultCNI (Networking cfg))
       (WaitForReady opts)"
  by (simp add: actionsToRun_def spec_steps_def)

theorem pipeline_is_spec_steps_witness:
  "actionsToRun stopOptions exampleConfig = spec_steps True False 30 \<and>
   spec_steps True False 30 = [loadbalancer, configaction] \<and>
   actionsToRun exampleOptions exampleConfig = spec_steps False False 30 \<and>
   spec_steps False False 30 =
     [loadbalancer, configaction, kubeadminit, installcni, installstorage, kubeadmjoin,
      waitforready 30] \<and>
   spec_steps False True 30 =
     [loadbalancer, configaction, kubeadminit, installstorage, kubeadmjoin, waitforready 30]"
  using pipeline_is_spec_steps [of stopOptions exampleConfig]
    pipeline_is_spec_steps [of exampleOptions exampleConfig]
  by (simp add: spec_steps_def stopOptions_def exampleOptions_def exampleConfig_def)

subsection \<open>Failure and compensation\<close>

text \<open>
  C4. When provisioning fails (the trace holds a call of \<^verbatim>\<open>Provision\<close> that returned
  the error \<open>err\<close>), the call returns that error unchanged, whatever the deletion
  returns; the cluster deletion is invoked exactly once when \<^verbatim>\<open>Retain\<close> is false and
  never when it is true.
\<close>

theorem provision_failure_compensation:
  assumes "Cluster env name opts (start w) = (r, s')"
    and "EvProvision (Some err) \<in> set (trace s')"
  shows "r = Some err \<and> count_events is_delete (trace s') = (if Retain opts then 0 else 1)"
proof -
  from Cluster_outcome [OF assms(1)] obtain oc where oc:
    "r = outcome_result name oc"
    "trace s' = outcome_events name opts (pipeline env opts (start w)) oc" by auto
  show ?thesis using assms(2) oc
    by (cases oc) (auto simp: count_events_def)
qed

theorem provision_failure_compensation_witness:
  "EvProvision (Some (Collaborator ''provision''))
     \<in> set (trace (snd (Cluster failingProvision ''kind'' exampleOptions (start 0)))) \<and>
   fst (Cluster failingProvision ''kind'' exampleOptions (start 0)) =
     Some (Collaborator ''provision'') \<and>
   \<not> Retain exampleOptions \<and>
   count_events is_delete
     (trace (snd (Cluster failingProvision ''kind'' exampleOptions (start 0)))) = 1"
proof -
  have h: "EvProvision (Some (Collaborator ''provision''))
     \<in> set (trace (snd (Cluster failingProvision ''kind'' exampleOptions (start 0))))"
    by (simp add: failingProvision_run)
  have "\<not> Retain exampleOptions" by (simp add: exampleOptions_def)
  with h provision_failure_compensation [OF failingProvision_run, of "Collaborator ''provision''"]
  show ?thesis by (simp add: failingProvision_run)
qed

text \<open>
  C5. When a step of the assembled pipeline fails (the trace holds an execution of
  action \<open>a\<close> that returned the error \<open>err\<close>), it is the step at some index \<open>k\<close> of the
  pipeline, the executions in the trace are those of the steps before \<open>k\<close>, which
  returned \<^verbatim>\<open>nil\<close>, followed by the failing one and nothing else, so that no later step
  is executed; the call returns \<open>err\<close> itself; and the cluster deletion is invoked
  exactly once unless \<^verbatim>\<open>Retain\<close> is set, in which case it is not invoked.
\<close>

theorem step_failure_stops_pipeline:
  assumes "Cluster env name opts (start w) = (r, s')"
    and "EvExecute a (Some err) \<in> set (trace s')"
  shows "\<exists>k < length (pipeline env opts (start w)).
           a = pipeline env opts (start w) ! k \<and>
           filter is_execute (trace s') =
             executed_ok (take k (pipeline env opts (start w))) @ [EvExecute a (Some err)] \<and>
           r = Some err \<and>
           count_events is_delete (trace s') = (if Retain opts then 0 else 1)"
proof -
  from Cluster_outcome [OF assms(1)] obtain oc where oc:
    "outcome_ok name opts (pipeline env opts (start w)) oc"
    "r = outcome_result name oc"
    "trace s' = outcome_events name opts (pipeline env opts (start w)) oc" by auto
  show ?thesis using assms(2) oc
    by (cases oc) (auto simp: count_events_def)
qed

theorem step_failure_stops_pipeline_witness:
  "EvExecute kubeadminit (Some (Collaborator ''init''))
     \<in> set (trace (snd (Cluster failingStep ''kind'' exampleOptions (start 0)))) \<and>
   pipeline failingStep exampleOptions (start 0) =
     [loadbalancer, configaction, kubeadminit, installcni, installstorage, kubeadmjoin,
      waitforready 30] \<and>
   filter is_execute (trace (snd (Cluster failingStep ''kind'' exampleOptions (start 0)))) =
     [EvExecute loadbalancer None, EvExecute configaction None,
      EvExecute kubeadminit (Some (Collaborator ''init''))] \<and>
   fst (Cluster failingStep ''kind'' exampleOptions (start 0)) = Some (Collaborator ''init'') \<and>
   count_events is_delete (trace (snd (Cluster failingStep ''kind'' exampleOptions (start 0)))) = 1"
proof -
  have h: "EvExecute kubeadminit (Some (Collaborator ''init''))
     \<in> set (trace (snd (Cluster failingStep ''kind'' exampleOptions (start 0))))"
    by (simp add: failingStep_run)
  have p: "pipeline failingStep exampleOptions (start 0) =
     [loadbalancer, configaction, kubeadminit, installcni, installstorage, kubeadmjoin,
      waitforready 30]"
  proof -
    have n: "normalizedConfig failingStep exampleOptions (start 0) =
        Some (exampleDefaults exampleConfig)"
      by (simp add: normalizedConfig_def sourceConfig_def overrideConfig_def failingStep_def
          exampleEnv_def exampleOptions_def)
    have "\<not> DisableDefaultCNI (Networking (exampleDefaults exampleConfig))"
      by (simp add: exampleDefaults_def exampleConfig_def)
    then show ?thesis by (simp add: pipeline_def n example_pipeline)
  qed
  have "\<not> Retain exampleOptions" by (simp add: exampleOptions_def)
  with h p step_failure_stops_pipeline [OF failingStep_run, of kubeadminit "Collaborator ''init''"]
  show ?thesis by (simp add: failingStep_run count_events_def)
qed

subsection \<open>Completion\<close>

text \<open>
  C6. After a fully successful pipeline run (the executions in the trace are those of
  every step of the pipeline assembled from the normalized configuration, each returning
  \<^verbatim>\<open>nil\<close>): when \<^verbatim>\<open>StopBeforeSettingUpKubernetes\<close> is set the call returns \<^verbatim>\<open>nil\<close>
  with the last step as the last event, and credential export, usage output and
  salutation output are never attempted; when it is not set credential export is
  attempted exactly once.
\<close>

theorem completion_after_success:
  assumes "Cluster env name opts (start w) = (r, s')"
    and "normalizedConfig env opts (start w) = Some cfg"
    and "filter is_execute (trace s') = executed_ok (actionsToRun opts cfg)"
  shows "(StopBeforeSettingUpKubernetes opts \<longrightarrow>
            r = None \<and> count_events is_export (trace s') = 0 \<and>
            count_events is_report (trace s') = 0 \<and>
            (\<exists>pre. trace s' = pre @ executed_ok (actionsToRun opts cfg))) \<and>
         (\<not> StopBeforeSettingUpKubernetes opts \<longrightarrow> count_events is_export (trace s') = 1)"
proof -
  have p: "pipeline env opts (start w) = actionsToRun opts cfg"
    using assms(2) by (simp add: pipeline_def)
  from Cluster_outcome [OF assms(1)] obtain oc where oc:
    "outcome_ok name opts (actionsToRun opts cfg) oc"
    "r = outcome_result name oc"
    "trace s' = outcome_events name opts (actionsToRun opts cfg) oc" unfolding p by auto
  show ?thesis using assms(3) oc
    by (cases oc) (auto simp: count_events_def)
qed

theorem completion_after_success_witness:
  "StopBeforeSettingUpKubernetes stopOptions \<and>
   filter is_execute (trace (snd (Cluster exampleEnv ''kind'' stopOptions (start 0)))) =
     executed_ok (actionsToRun stopOptions (exampleDefaults exampleConfig)) \<and>
   fst (Cluster exampleEnv ''kind'' stopOptions (start 0)) = None \<and>
   count_events is_export (trace (snd (Cluster exampleEnv ''kind'' stopOptions (start 0)))) = 0 \<and>
   count_events is_report (trace (snd (Cluster exampleEnv ''kind'' stopOptions (start 0)))) = 0 \<and>
   \<not> StopBeforeSettingUpKubernetes exampleOptions \<and>
   filter is_execute (trace (snd (Cluster exampleEnv ''kind'' exampleOptions (start 0)))) =
     executed_ok (actionsToRun exampleOptions (exampleDefaults exampleConfig)) \<and>
   count_events is_export (trace (snd (Cluster exampleEnv ''kind'' exampleOptions (start 0)))) = 1"
proof -
  have s: "StopBeforeSettingUpKubernetes stopOptions"
    "\<not> StopBeforeSettingUpKubernetes exampleOptions"
    by (simp_all add: stopOptions_def exampleOptions_def)
  have cni: "\<not> DisableDefaultCNI (Networking (exampleDefaults exampleConfig))"
    by (simp add: exampleDefaults_def exampleConfig_def)
  have h1: "filter is_execute (trace (snd (Cluster exampleEnv ''kind'' stopOptions (start 0)))) =
     executed_ok (actionsToRun stopOptions (exampleDefaults exampleConfig))"
    by (simp add: stop_run example_pipeline executed_ok_def)
  have h2: "filter is_execute (trace (snd (Cluster exampleEnv ''kind'' exampleOptions (start 0)))) =
     executed_ok (actionsToRun exampleOptions (exampleDefaults exampleConfig))"
    by (simp add: example_run example_pipeline cni executed_ok_def)
  from completion_after_success [OF stop_run example_normalized(2)]
    completion_after_success [OF example_run example_normalized(1)] s h1 h2
  show ?thesis by (simp add: stop_run example_run)
qed

text \<open>
  C7. When credential export fails (the trace holds a call of \<^verbatim>\<open>kubeconfig.Export\<close>
  that returned the error \<open>err\<close>), every step of the pipeline has been executed and
  returned \<^verbatim>\<open>nil\<close>, the call returns \<open>err\<close>, and the cluster deletion is never invoked.
\<close>

theorem export_failure_no_compensation:
  assumes "Cluster env name opts (start w) = (r, s')"
    and "EvExport path (Some err) \<in> set (trace s')"
  shows "r = Some err \<and> count_events is_delete (trace s') = 0 \<and>
         filter is_execute (trace s') = executed_ok (pipeline env opts (start w))"
proof -
  from Cluster_outcome [OF assms(1)] obtain oc where oc:
    "r = outcome_result name oc"
    "trace s' = outcome_events name opts (pipeline env opts (start w)) oc" by auto
  show ?thesis using assms(2) oc
    by (cases oc) (auto simp: count_events_def)
qed

theorem export_failure_no_compensation_witness:
  "EvExport [] (Some (Collaborator ''export''))
     \<in> set (trace (snd (Cluster failingExport ''kind'' exampleOptions (start 0)))) \<and>
   fst (Cluster failingExport ''kind'' exampleOptions (start 0)) =
     Some (Collaborator ''export'') \<and>
   count_events is_delete
     (trace (snd (Cluster failingExport ''kind'' exampleOptions (start 0)))) = 0"
proof -
  have h: "EvExport [] (Some (Collaborator ''export''))
     \<in> set (trace (snd (Cluster failingExport ''kind'' exampleOptions (start 0))))"
    by (simp add: failingExport_run)
  with export_failure_no_compensation [OF failingExport_run, of "[]" "Collaborator ''export''"]
  show ?thesis by (simp add: failingExport_run)
qed

subsection \<open>The order of normalization and validation\<close>

text \<open>
  C1, as the code has it. \<^verbatim>\<open>Cluster\<close> calls \<^verbatim>\<open>fixupOptions\<close> first and matches the
  name afterwards. The trace \<^verbatim>\<open>fixupOptions\<close> leaves is not empty and holds
  normalization events only (the default configuration loaded, the defaults computed).
  When \<^verbatim>\<open>fixupOptions\<close> fails the call returns its error and the name is never
  matched; otherwise the next event is the match of the name, and no normalization event
  and no further match follows it.
\<close>

theorem normalization_precedes_validation:
  assumes "Cluster env name opts (start w) = (r, s')"
    and "fixupOptions env opts (start w) = (r0, opts1, s1)"
  shows "trace s1 \<noteq> [] \<and> list_all is_norm (trace s1) \<and>
         (case r0 of
            Some err \<Rightarrow> r = Some err \<and> trace s' = trace s1
          | None \<Rightarrow>
              (\<exists>rest. trace s' =
                   trace s1 @ EvMatchString name (validNameRE_MatchString name) # rest \<and>
                 list_all (\<lambda>e. \<not> is_norm e \<and> \<not> is_check e) rest))"
proof -
  from fixupOptions_cases [OF assms(2)] show ?thesis
  proof
    assume "\<exists>err. r0 = Some err \<and> Config opts = None \<and> opts1 = opts \<and>
        sourceConfig env opts (start w) = None \<and>
        trace s1 = trace (start w) @ [EvLoad (Some err)]"
    then obtain err where e: "r0 = Some err" "trace s1 = [EvLoad (Some err)]" by auto
    with assms have "r = Some err" "s' = s1" by (auto simp: Cluster_def)
    with e show ?thesis by simp
  next
    assume "\<exists>cfg. r0 = None \<and> normalizedConfig env opts (start w) = Some cfg \<and>
        sourceConfig env opts (start w) \<noteq> None \<and>
        opts1 = opts\<lparr>Config := Some cfg\<rparr> \<and> trace s1 = trace (start w) @ norm_events opts"
    then obtain cfg where c: "r0 = None" "opts1 = opts\<lparr>Config := Some cfg\<rparr>"
      "trace s1 = norm_events opts" by auto
    with assms have v: "validateAndRun env name opts1 s1 = (r, s')" by (auto simp: Cluster_def)
    have "Config opts1 = Some cfg" using c by simp
    from validateAndRun_cases [OF v this] obtain oc where oc:
      "\<forall>err. oc \<noteq> LoadFailed err" "outcome_ok name opts1 (actionsToRun opts1 cfg) oc"
      "trace s' = trace s1 @ after_norm name opts1 (actionsToRun opts1 cfg) oc" by blast
    from after_norm_shape [OF oc(1,2)] oc(3) c show ?thesis by auto
  qed
qed

theorem normalization_precedes_validation_witness:
  "trace (snd (snd (fixupOptions exampleEnv noConfigOptions (start 0)))) =
     [EvLoad None, EvSetDefaultsCluster] \<and>
   trace (snd (Cluster exampleEnv ''a/b'' noConfigOptions (start 0))) =
     trace (snd (snd (fixupOptions exampleEnv noConfigOptions (start 0)))) @
     [EvMatchString ''a/b'' False]"
  using normalization_precedes_validation [OF noConfig_run noConfig_fixup]
  by (simp add: noConfig_run noConfig_fixup)

text \<open>
  C1, as the claim states it (the name is checked before any normalization side effect),
  fails: for the name \<open>a/b\<close>, which the rule rejects, and options without a
  configuration, the default configuration is loaded and defaulted before the name is
  matched.
\<close>

theorem validation_first_counterexample:
  "\<not> validNameRE_MatchString ''a/b'' \<and>
   trace (snd (Cluster exampleEnv ''a/b'' noConfigOptions (start 0))) =
     [EvLoad None, EvSetDefaultsCluster, EvMatchString ''a/b'' False] \<and>
   \<not> check_precedes_norm (trace (snd (Cluster exampleEnv ''a/b'' noConfigOptions (start 0))))"
  by (simp add: noConfig_run validNameRE_MatchString_def validNameChar_def)

subsection \<open>Name validation\<close>

text \<open>
  C8, as the code has it. The match of \<^verbatim>\<open>validNameRE\<close> succeeds exactly for the names
  that wholly match \<^verbatim>\<open>^[A-Za-z0-9_.-]+$\<close>. For a name that does not match, the call
  fails before anything is provisioned: no \<^verbatim>\<open>Provision\<close>, no action and no deletion
  is in the trace. The error is the invalid-name error when \<^verbatim>\<open>fixupOptions\<close>, which
  runs first, returned \<^verbatim>\<open>nil\<close>, and the error of \<^verbatim>\<open>fixupOptions\<close> otherwise.
\<close>

theorem invalid_name_rejected:
  assumes "Cluster env name opts (start w) = (r, s')"
  shows "(validNameRE_MatchString name \<longleftrightarrow> spec_name_matches name) \<and>
         (\<not> validNameRE_MatchString name \<longrightarrow>
            r = (case fst (fixupOptions env opts (start w)) of
                   Some err \<Rightarrow> Some err
                 | None \<Rightarrow> Some (invalidNameError name)) \<and>
            count_events is_provision (trace s') = 0 \<and>
            count_events is_execute (trace s') = 0 \<and>
            count_events is_delete (trace s') = 0)"
proof -
  from Cluster_outcome [OF assms(1)] obtain oc where oc:
    "outcome_ok name opts (pipeline env opts (start w)) oc"
    "r = outcome_result name oc"
    "trace s' = outcome_events name opts (pipeline env opts (start w)) oc"
    "fst (fixupOptions env opts (start w)) = load_error oc" by auto
  have "\<not> validNameRE_MatchString name \<longrightarrow>
            r = (case fst (fixupOptions env opts (start w)) of
                   Some err \<Rightarrow> Some err
                 | None \<Rightarrow> Some (invalidNameError name)) \<and>
            count_events is_provision (trace s') = 0 \<and>
            count_events is_execute (trace s') = 0 \<and>
            count_events is_delete (trace s') = 0"
    using oc by (cases oc) (auto simp: count_events_def)
  with validName_spec show ?thesis by simp
qed

theorem invalid_name_rejected_witness:
  "\<not> validNameRE_MatchString ''my cluster!'' \<and> \<not> validNameRE_MatchString [] \<and>
   \<not> validNameRE_MatchString ''a/b'' \<and> validNameRE_MatchString ''kind'' \<and>
   spec_name_matches ''kind'' \<and>
   fst (Cluster exampleEnv ''my cluster!'' exampleOptions (start 0)) =
     Some (invalidNameError ''my cluster!'') \<and>
   count_events is_provision
     (trace (snd (Cluster exampleEnv ''my cluster!'' exampleOptions (start 0)))) = 0 \<and>
   count_events is_delete
     (trace (snd (Cluster exampleEnv ''my cluster!'' exampleOptions (start 0)))) = 0 \<and>
   fst (Cluster exampleEnv [] exampleOptions (start 0)) = Some (invalidNameError []) \<and>
   fst (Cluster exampleEnv ''a/b'' noConfigOptions (start 0)) = Some (invalidNameError ''a/b'') \<and>
   fst (Cluster failingLoad ''a/b'' noConfigOptions (start 0)) = Some (Collaborator ''load'')"
proof -
  have v: "\<not> validNameRE_MatchString ''my cluster!''" "\<not> validNameRE_MatchString []"
    "\<not> validNameRE_MatchString ''a/b''" "validNameRE_MatchString ''kind''"
    by (simp_all add: validNameRE_MatchString_def validNameChar_def)
  have f: "fst (fixupOptions exampleEnv exampleOptions (start 0)) = None"
    "fst (fixupOptions exampleEnv noConfigOptions (start 0)) = None"
    "fst (fixupOptions failingLoad noConfigOptions (start 0)) = Some (Collaborator ''load'')"
    by (simp_all add: plain_run noConfig_fixup)
      (simp add: fixupOptions_def call_def failingLoad_def exampleEnv_def noConfigOptions_def
        exampleOptions_def start_def)
  from invalid_name_rejected [OF invalid_runs(1)] invalid_name_rejected [OF invalid_runs(2)]
    invalid_name_rejected [OF noConfig_run] invalid_name_rejected [OF failingLoad_run]
    invalid_name_rejected [OF example_run] v f
  show ?thesis by (simp add: invalid_runs noConfig_run failingLoad_run)
qed

text \<open>
  C8, as the claim states it (a mismatch always ends in the invalid-name error), fails:
  for the name \<open>a/b\<close>, options without a configuration and a loader that fails, the
  call returns the loader's error.
\<close>

theorem invalid_name_error_counterexample:
  "\<not> validNameRE_MatchString ''a/b'' \<and>
   fst (Cluster failingLoad ''a/b'' noConfigOptions (start 0)) = Some (Collaborator ''load'') \<and>
   fst (Cluster failingLoad ''a/b'' noConfigOptions (start 0)) \<noteq> Some (invalidNameError ''a/b'')"
  by (simp add: failingLoad_run validNameRE_MatchString_def validNameChar_def invalidNameError_def)

subsection \<open>Normalization\<close>

text \<open>
  C9. For a non-empty node-image override, when \<^verbatim>\<open>fixupOptions\<close> returns \<^verbatim>\<open>nil\<close>:
  the configuration handed to \<^verbatim>\<open>config.SetDefaultsCluster\<close> has the node entries of
  the specification normalization started from, each with the override as its image; and
  when the default-value computation fills unset fields only, every node entry of that
  specification has the override as its image in the configuration the options hold
  afterwards, which are all of its node entries when the computation added none.
\<close>

theorem image_override_applied:
  assumes "NodeImage opts \<noteq> []"
    and "fixupOptions env opts s = (None, opts1, s1)"
  shows "\<exists>cfg0. sourceConfig env opts s = Some cfg0 \<and>
           Config opts1 = Some (config_SetDefaultsCluster env (overrideConfig opts cfg0)) \<and>
           length (Nodes (overrideConfig opts cfg0)) = length (Nodes cfg0) \<and>
           (\<forall>n \<in> set (Nodes (overrideConfig opts cfg0)). Node_Image n = NodeImage opts) \<and>
           (fills_unset_only (config_SetDefaultsCluster env) \<longrightarrow>
              (\<exists>cfg. Config opts1 = Some cfg \<and> length (Nodes cfg0) \<le> length (Nodes cfg) \<and>
                 (\<forall>i < length (Nodes cfg0). Node_Image (Nodes cfg ! i) = NodeImage opts) \<and>
                 (length (Nodes cfg) = length (Nodes cfg0) \<longrightarrow>
                    (\<forall>n \<in> set (Nodes cfg). Node_Image n = NodeImage opts))))"
proof -
  from fixupOptions_Config [OF assms(2)] obtain cfg0 where c:
    "sourceConfig env opts s = Some cfg0"
    "opts1 = opts\<lparr>Config := Some (config_SetDefaultsCluster env (overrideConfig opts cfg0))\<rparr>"
    by blast
  have o: "length (Nodes (overrideConfig opts cfg0)) = length (Nodes cfg0)"
    "\<forall>n \<in> set (Nodes (overrideConfig opts cfg0)). Node_Image n = NodeImage opts"
    using assms(1) by (simp_all add: overrideConfig_Nodes)
  have "fills_unset_only (config_SetDefaultsCluster env) \<longrightarrow>
      (\<exists>cfg. Config opts1 = Some cfg \<and> length (Nodes cfg0) \<le> length (Nodes cfg) \<and>
         (\<forall>i < length (Nodes cfg0). Node_Image (Nodes cfg ! i) = NodeImage opts) \<and>
         (length (Nodes cfg) = length (Nodes cfg0) \<longrightarrow>
            (\<forall>n \<in> set (Nodes cfg). Node_Image n = NodeImage opts)))"
  proof
    assume f: "fills_unset_only (config_SetDefaultsCluster env)"
    let ?cfg = "config_SetDefaultsCluster env (overrideConfig opts cfg0)"
    have "Config opts1 = Some ?cfg" using c(2) by simp
    moreover have "length (Nodes cfg0) \<le> length (Nodes ?cfg)"
      using fills_unset_only_images(1) [OF f assms(1) o(2)] o(1) by simp
    moreover have "\<forall>i < length (Nodes cfg0). Node_Image (Nodes ?cfg ! i) = NodeImage opts"
      using fills_unset_only_images(2) [OF f assms(1) o(2)] o(1) by simp
    moreover have "length (Nodes ?cfg) = length (Nodes cfg0) \<longrightarrow>
        (\<forall>n \<in> set (Nodes ?cfg). Node_Image n = NodeImage opts)"
      using fills_unset_only_images(3) [OF f assms(1) o(2)] o(1) by simp
    ultimately show "\<exists>cfg. Config opts1 = Some cfg \<and> length (Nodes cfg0) \<le> length (Nodes cfg) \<and>
         (\<forall>i < length (Nodes cfg0). Node_Image (Nodes cfg ! i) = NodeImage opts) \<and>
         (length (Nodes cfg) = length (Nodes cfg0) \<longrightarrow>
            (\<forall>n \<in> set (Nodes cfg). Node_Image n = NodeImage opts))"
      by blast
  qed
  with c o show ?thesis by simp
qed

theorem image_override_applied_witness:
  "NodeImage overrideOptions \<noteq> [] \<and>
   fst (fixupOptions exampleEnv overrideOptions (start 0)) = None \<and>
   fills_unset_only (config_SetDefaultsCluster exampleEnv) \<and>
   map_option (\<lambda>cfg. map Node_Image (Nodes cfg))
     (Config (fst (snd (fixupOptions exampleEnv overrideOptions (start 0))))) =
     Some [''custom:tag'', ''custom:tag'', ''custom:tag'']"
proof -
  have n: "NodeImage overrideOptions \<noteq> []" by (simp add: overrideOptions_def)
  have f: "fills_unset_only (config_SetDefaultsCluster exampleEnv)"
    by (simp add: exampleEnv_def exampleDefaults_fills)
  from image_override_applied [OF n override_run] f n show ?thesis
    by (simp add: override_run exampleNode_def)
qed

text \<open>
  C10. For an empty node-image override, \<^verbatim>\<open>fixupOptions\<close> changes no field of the
  options but \<^verbatim>\<open>Config\<close> (\<^verbatim>\<open>NodeImage\<close>, \<^verbatim>\<open>Retain\<close>, \<^verbatim>\<open>WaitForReady\<close>,
  \<^verbatim>\<open>KubeconfigPath\<close>, the stop flag and the display flags stay as they were); when it
  fails the options are unchanged altogether, and when it returns \<^verbatim>\<open>nil\<close> the
  configuration is the result of \<^verbatim>\<open>config.SetDefaultsCluster\<close> on the very
  configuration normalization started from, so that an image can only have been changed
  by the default-value computation.
\<close>

theorem empty_override_frame:
  assumes "NodeImage opts = []"
    and "fixupOptions env opts s = (r, opts1, s1)"
  shows "opts1 = opts\<lparr>Config := Config opts1\<rparr> \<and>
         NodeImage opts1 = NodeImage opts \<and> Retain opts1 = Retain opts \<and>
         WaitForReady opts1 = WaitForReady opts \<and> KubeconfigPath opts1 = KubeconfigPath opts \<and>
         StopBeforeSettingUpKubernetes opts1 = StopBeforeSettingUpKubernetes opts \<and>
         DisplayUsage opts1 = DisplayUsage opts \<and>
         DisplaySalutation opts1 = DisplaySalutation opts \<and>
         (case r of
            Some err \<Rightarrow> opts1 = opts
          | None \<Rightarrow> Config opts1 =
              map_option (config_SetDefaultsCluster env) (sourceConfig env opts s))"
  using assms
  by (auto simp: fixupOptions_def sourceConfig_def call_def overrideConfig_def
      split: option.splits prod.splits sum.splits)

theorem empty_override_frame_witness:
  "NodeImage exampleOptions = [] \<and>
   fst (fixupOptions exampleEnv exampleOptions (start 0)) = None \<and>
   Retain (fst (snd (fixupOptions exampleEnv exampleOptions (start 0)))) = Retain exampleOptions \<and>
   Config (fst (snd (fixupOptions exampleEnv exampleOptions (start 0)))) =
     Some (exampleDefaults exampleConfig) \<and>
   map_option (\<lambda>cfg. map Node_Image (Nodes cfg))
     (Config (fst (snd (fixupOptions exampleEnv exampleOptions (start 0))))) =
     Some [''kindest/node'', ''kindest/node:v1'', ''kindest/node'']"
proof -
  have n: "NodeImage exampleOptions = []" by (simp add: exampleOptions_def)
  have s: "sourceConfig exampleEnv exampleOptions (start 0) = Some exampleConfig"
    by (simp add: sourceConfig_def exampleOptions_def)
  have d: "exampleDefaults exampleConfig =
      \<lparr>Nodes = [exampleNode ''control-plane'' ''kindest/node'',
                exampleNode ''worker'' ''kindest/node:v1'',
                exampleNode ''worker'' ''kindest/node''],
       Networking = \<lparr>DisableDefaultCNI = False\<rparr>\<rparr>"
    by (simp add: exampleDefaults_def exampleConfig_def exampleNodeDefaults_def exampleNode_def)
  have sd: "config_SetDefaultsCluster exampleEnv exampleConfig =
      \<lparr>Nodes = [exampleNode ''control-plane'' ''kindest/node'',
                exampleNode ''worker'' ''kindest/node:v1'',
                exampleNode ''worker'' ''kindest/node''],
       Networking = \<lparr>DisableDefaultCNI = False\<rparr>\<rparr>"
    by (simp add: exampleEnv_def d)
  from empty_override_frame [OF n plain_run] n s show ?thesis
    by (simp add: plain_run d sd exampleNode_def)
qed

end
